theory Spec2Isabelle
  imports Main "HOL-Library.Multiset" "HOL-Library.Monad_Syntax"
begin

section \<open>Multisort (Lab4, \<^verbatim>\<open>multisort-tree.c\<close>): data model\<close>

text \<open>
  The program sorts an array of \<^verbatim>\<open>T\<close> (\<^verbatim>\<open>#define T int\<close>) with a four-way recursive
  merge sort. Elements are only copied and compared, never computed with, so an element
  is modelled by its integer value.

  The buffers \<^verbatim>\<open>data\<close> and \<^verbatim>\<open>tmp\<close> are reached through pointers, and the recursive calls
  pass pointers into the middle of them (\<^verbatim>\<open>&data[n/4L]\<close>). The model keeps one store,
  a function from element addresses to values, and a pointer is an address; the
  pointer \<^verbatim>\<open>&p[k]\<close> is \<open>p + k\<close>.

  The OpenMP pragmas are not modelled: the functions below are the serial elision of
  the program, in which every task runs at the place where it is created, in program
  order (the code a compiler produces without OpenMP, and the call sequence of the two
  \<^verbatim>\<open>multisort-tareador\<close> variants).
\<close>

type_synonym T = int
type_synonym ptr = int
type_synonym mem = "ptr \<Rightarrow> T"

text \<open>The global variables of the program.\<close>

record globals =
  N :: int
  MIN_SORT_SIZE :: int
  MIN_MERGE_SIZE :: int
  CUTOFF :: int

subsection \<open>The type \<^verbatim>\<open>long\<close>\<close>

text \<open>
  A \<^verbatim>\<open>long\<close> is a 64-bit signed integer. It is modelled by its value, an \<open>int\<close>.
  Every product and sum the program computes is wrapped to 64 bits (C leaves signed
  overflow undefined; wrapping is what two's complement code does), so that a result
  about the program holds only where it states that the operands are in range. The
  division of C truncates towards zero.
\<close>

definition LONG_MAX :: int where
  "LONG_MAX = 2 ^ 63 - 1"

definition wrap64 :: "int \<Rightarrow> int" where
  "wrap64 x = (x + 2 ^ 63) mod 2 ^ 64 - 2 ^ 63"

definition long_mul :: "int \<Rightarrow> int \<Rightarrow> int" where
  "long_mul a b = wrap64 (a * b)"

definition long_add :: "int \<Rightarrow> int \<Rightarrow> int" where
  "long_add a b = wrap64 (a + b)"

definition long_div :: "int \<Rightarrow> int \<Rightarrow> int" where
  "long_div a b = sgn a * sgn b * (\<bar>a\<bar> div \<bar>b\<bar>)"

subsection \<open>Reading and writing ranges of the store\<close>

definition rd :: "mem \<Rightarrow> ptr \<Rightarrow> int \<Rightarrow> T list" where
  "rd m p n = map (\<lambda>i. m (p + int i)) [0..<nat n]"

definition wr :: "mem \<Rightarrow> ptr \<Rightarrow> T list \<Rightarrow> mem" where
  "wr m p xs = (\<lambda>a. if p \<le> a \<and> a < p + int (length xs) then xs ! nat (a - p) else m a)"

text \<open>Two address ranges \<open>[p, p + n)\<close> and \<open>[q, q + k)\<close> do not overlap.\<close>

definition disjoint :: "ptr \<Rightarrow> int \<Rightarrow> ptr \<Rightarrow> int \<Rightarrow> bool" where
  "disjoint p n q k = (p + n \<le> q \<or> q + k \<le> p)"

text \<open>An executable test for the positive powers of two.\<close>

function pow2 :: "int \<Rightarrow> bool" where
  "pow2 n = (if n \<le> 1 then n = 1 else even n \<and> pow2 (n div 2))"
  by pat_completeness auto
termination
  by (relation "measure nat") auto

declare pow2.simps [simp del]

section \<open>The external base cases\<close>

text \<open>
  \<^verbatim>\<open>basicsort\<close> and \<^verbatim>\<open>basicmerge\<close> are declared in the source and defined in a
  kernel library that is linked in. They are parameters of the model:
  \<open>bs n data m\<close> is the store after \<^verbatim>\<open>basicsort(n, data)\<close> runs in the store \<open>m\<close>, and
  \<open>bm n left right result start length m\<close> the store after \<^verbatim>\<open>basicmerge\<close>. Both are
  assumed to return.
\<close>

type_synonym basicsort_fn = "int \<Rightarrow> ptr \<Rightarrow> mem \<Rightarrow> mem"
type_synonym basicmerge_fn = "int \<Rightarrow> ptr \<Rightarrow> ptr \<Rightarrow> ptr \<Rightarrow> int \<Rightarrow> int \<Rightarrow> mem \<Rightarrow> mem"

text \<open>The kernel library an executable is linked with.\<close>

record kernels =
  basicsort :: basicsort_fn
  basicmerge :: basicmerge_fn

text \<open>
  Modelled from the spec: the body of \<^verbatim>\<open>basicmerge\<close> is missing; the spec calls it
  a standard two-pointer merge in which ties take the element of the left sequence.
  The merge is written over a key, so that equal keys can be told apart.
\<close>

fun stable_merge :: "('a \<Rightarrow> 'k::linorder) \<Rightarrow> 'a list \<Rightarrow> 'a list \<Rightarrow> 'a list" where
  "stable_merge key [] ys = ys"
| "stable_merge key xs [] = xs"
| "stable_merge key (x # xs) (y # ys) =
     (if key x \<le> key y then x # stable_merge key xs (y # ys)
      else y # stable_merge key (x # xs) ys)"


text \<open>
  The contract of \<^verbatim>\<open>basicsort(n, data)\<close>: it sorts \<open>data[0..n)\<close> in place, keeping the
  values, and writes nowhere else.
\<close>

definition basicsort_contract :: "basicsort_fn \<Rightarrow> bool" where
  "basicsort_contract bs \<longleftrightarrow>
     (\<forall>n d m. 0 \<le> n \<longrightarrow>
        sorted (rd (bs n d m) d n) \<and>
        mset (rd (bs n d m) d n) = mset (rd m d n) \<and>
        (\<forall>a. a < d \<or> d + n \<le> a \<longrightarrow> bs n d m a = m a))"

text \<open>
  The contract of \<^verbatim>\<open>basicmerge(n, left, right, result, start, length)\<close>: when
  \<open>left[0..n)\<close> and \<open>right[0..n)\<close> are sorted and \<open>result[0..2n)\<close> overlaps neither, it
  writes the elements \<open>start..start+length\<close> of their stable merge to
  \<open>result[start..start+length)\<close>, and writes nowhere else.
\<close>

definition basicmerge_contract :: "basicmerge_fn \<Rightarrow> bool" where
  "basicmerge_contract bm \<longleftrightarrow>
     (\<forall>n l r res start len m.
        0 \<le> n \<and> 0 \<le> start \<and> 0 \<le> len \<and> start + len \<le> 2 * n \<and>
        sorted (rd m l n) \<and> sorted (rd m r n) \<and>
        disjoint res (2 * n) l n \<and> disjoint res (2 * n) r n \<longrightarrow>
          rd (bm n l r res start len m) (res + start) len =
            take (nat len) (drop (nat start) (stable_merge (\<lambda>x. x) (rd m l n) (rd m r n))) \<and>
          (\<forall>a. a < res + start \<or> res + start + len \<le> a \<longrightarrow>
             bm n l r res start len m a = m a))"

text \<open>
  Modelled from the spec: reference base cases that meet the two contracts, an
  insertion sort of the range and the two-pointer merge above.
\<close>

definition basicsort_ref :: basicsort_fn where
  "basicsort_ref n d m = wr m d (sort (rd m d n))"

definition basicmerge_ref :: basicmerge_fn where
  "basicmerge_ref n l r res start len m =
     wr m (res + start)
       (take (nat len) (drop (nat start) (stable_merge (\<lambda>x. x) (rd m l n) (rd m r n))))"

definition kernels_ref :: kernels where
  "kernels_ref = \<lparr>basicsort = basicsort_ref, basicmerge = basicmerge_ref\<rparr>"

section \<open>The sort engine\<close>

text \<open>
  \<^verbatim>\<open>merge\<close> and \<^verbatim>\<open>multisort\<close>, as in the source; \<open>k\<close> is the kernel library and \<open>g\<close>
  the global variables. Both functions recurse for ever on some arguments (a threshold
  that is not positive), so they return an option, \<open>None\<close> for a call that does not
  return.
\<close>

partial_function (option) merge ::
  "kernels \<Rightarrow> globals \<Rightarrow> int \<Rightarrow> ptr \<Rightarrow> ptr \<Rightarrow> ptr \<Rightarrow> int \<Rightarrow> int \<Rightarrow> mem \<Rightarrow> mem option"
where
  "merge k g n left right result start len m =
     (if len < long_mul (MIN_MERGE_SIZE g) 2 then
        Some (basicmerge k n left right result start len m)
      else do {
        m1 \<leftarrow> merge k g n left right result start (long_div len 2) m;
        merge k g n left right result
          (long_add start (long_div len 2)) (long_div len 2) m1
      })"

partial_function (option) multisort ::
  "kernels \<Rightarrow> globals \<Rightarrow> int \<Rightarrow> ptr \<Rightarrow> ptr \<Rightarrow> mem \<Rightarrow> mem option"
where
  "multisort k g n data tmp m =
     (if n \<ge> long_mul (MIN_SORT_SIZE g) 4 then do {
        m1 \<leftarrow> multisort k g (long_div n 4) data tmp m;
        m2 \<leftarrow> multisort k g (long_div n 4)
                (data + long_div n 4) (tmp + long_div n 4) m1;
        m3 \<leftarrow> multisort k g (long_div n 4)
                (data + long_div n 2) (tmp + long_div n 2) m2;
        m4 \<leftarrow> multisort k g (long_div n 4)
                (data + long_div (long_mul 3 n) 4) (tmp + long_div (long_mul 3 n) 4) m3;
        m5 \<leftarrow> merge k g (long_div n 4) data (data + long_div n 4) tmp 0 (long_div n 2) m4;
        m6 \<leftarrow> merge k g (long_div n 4) (data + long_div n 2)
                (data + long_div (long_mul 3 n) 4) (tmp + long_div n 2) 0 (long_div n 2) m5;
        merge k g (long_div n 2) tmp (tmp + long_div n 2) data 0 n m6
      } else Some (basicsort k n data m))"

declare merge.simps [code] multisort.simps [code]

text \<open>A store that holds the list \<open>xs\<close> from address \<open>p\<close> on, and zero elsewhere.\<close>

definition store :: "ptr \<Rightarrow> T list \<Rightarrow> mem" where
  "store p xs = wr (\<lambda>a. 0) p xs"






section \<open>The driver\<close>

text \<open>
  \<^verbatim>\<open>main\<close> up to its call of \<^verbatim>\<open>multisort\<close>. \<open>argv\<close> is the argument vector, and
  \<open>omp\<close> says whether \<^verbatim>\<open>_OPENMP\<close> is defined. \<^verbatim>\<open>atol\<close> and \<^verbatim>\<open>atoi\<close> are the C library's:
  white space, an optional sign, decimal digits, the value clamped to the range of
  \<^verbatim>\<open>long\<close> as \<^verbatim>\<open>strtol\<close> does, and narrowed to 32 bits by \<^verbatim>\<open>atoi\<close>.

  There are three outcomes. \<open>Usage_Failure\<close>: the usage text is printed and \<^verbatim>\<open>main\<close>
  returns \<^verbatim>\<open>EXIT_FAILURE\<close>. \<open>Undefined_Behaviour\<close>: an option is the last argument, so
  that \<^verbatim>\<open>argv[++i]\<close> is the null pointer that ends \<open>argv\<close>. \<open>Sorts g\<close>: the arguments
  are consumed, the two buffers of \<open>N g\<close> elements are allocated and filled, and
  \<^verbatim>\<open>multisort(N, data, tmp)\<close> is called with the globals \<open>g\<close> (the allocations are taken
  to succeed).
\<close>

definition isspace :: "char \<Rightarrow> bool" where
  "isspace c \<longleftrightarrow> of_char c \<in> {32, 9, 10, 11, 12, 13 :: nat}"

definition isdigit :: "char \<Rightarrow> bool" where
  "isdigit c \<longleftrightarrow> 48 \<le> (of_char c :: nat) \<and> (of_char c :: nat) \<le> 57"

fun digits :: "int \<Rightarrow> string \<Rightarrow> int" where
  "digits acc [] = acc"
| "digits acc (c # cs) =
     (if isdigit c then digits (10 * acc + (int (of_char c) - 48)) cs else acc)"

definition clamp_long :: "int \<Rightarrow> int" where
  "clamp_long x = max (- (2 ^ 63)) (min LONG_MAX x)"

definition atol :: "string \<Rightarrow> int" where
  "atol s =
     (case dropWhile isspace s of
        [] \<Rightarrow> 0
      | c # cs \<Rightarrow>
          if c = CHR ''-'' then clamp_long (- digits 0 cs)
          else if c = CHR ''+'' then clamp_long (digits 0 cs)
          else clamp_long (digits 0 (c # cs)))"

definition wrap32 :: "int \<Rightarrow> int" where
  "wrap32 x = (x + 2 ^ 31) mod 2 ^ 32 - 2 ^ 31"

definition atoi :: "string \<Rightarrow> int" where
  "atoi s = wrap32 (atol s)"

datatype outcome = Usage_Failure | Undefined_Behaviour | Sorts globals

fun process_args :: "bool \<Rightarrow> string list \<Rightarrow> globals \<Rightarrow> outcome" where
  "process_args omp [] g = Sorts g"
| "process_args omp (a # rest) g =
     (if a = ''-n'' then
        (case rest of [] \<Rightarrow> Undefined_Behaviour
         | v # rest' \<Rightarrow> process_args omp rest' (g\<lparr>N := long_mul (atol v) 1024\<rparr>))
      else if a = ''-s'' then
        (case rest of [] \<Rightarrow> Undefined_Behaviour
         | v # rest' \<Rightarrow> process_args omp rest' (g\<lparr>MIN_SORT_SIZE := atol v\<rparr>))
      else if a = ''-m'' then
        (case rest of [] \<Rightarrow> Undefined_Behaviour
         | v # rest' \<Rightarrow> process_args omp rest' (g\<lparr>MIN_MERGE_SIZE := atol v\<rparr>))
      else if omp \<and> a = ''-c'' then
        (case rest of [] \<Rightarrow> Undefined_Behaviour
         | v # rest' \<Rightarrow> process_args omp rest' (g\<lparr>CUTOFF := atoi v\<rparr>))
      else Usage_Failure)"

definition defaults :: globals where
  "defaults = \<lparr>N = 32768 * 1024, MIN_SORT_SIZE = 1024, MIN_MERGE_SIZE = 1024, CUTOFF = 16\<rparr>"

definition main :: "bool \<Rightarrow> string list \<Rightarrow> outcome" where
  "main omp argv = process_args omp (drop 1 argv) defaults"



section \<open>Ranges of the store, arithmetic of \<^verbatim>\<open>long\<close>\<close>

lemma wrap64_id: "- (2 ^ 63) \<le> x \<Longrightarrow> x < 2 ^ 63 \<Longrightarrow> wrap64 x = x"
  by (simp add: wrap64_def)


lemma length_rd [simp]: "length (rd m p n) = nat n"
  by (simp add: rd_def)


lemma rd_cong: "(\<And>a. p \<le> a \<Longrightarrow> a < p + n \<Longrightarrow> m a = m' a) \<Longrightarrow> rd m p n = rd m' p n"
  by (auto simp: rd_def)


lemma rd_wr: "rd (wr m p xs) p (int (length xs)) = xs"
  by (auto simp: rd_def wr_def intro!: nth_equalityI)

lemma wr_outside: "a < p \<or> p + int (length xs) \<le> a \<Longrightarrow> wr m p xs a = m a"
  by (auto simp: wr_def)



lemma length_stable_merge: "length (stable_merge key xs ys) = length xs + length ys"
  by (induction key xs ys rule: stable_merge.induct) auto




lemma pow2_power: "pow2 (2 ^ k)"
proof (induction k)
  case 0
  show ?case by (simp add: pow2.simps [of 1])
next
  case (Suc k)
  have "(1::int) \<le> 2 ^ k" by simp
  then have "\<not> (2::int) * 2 ^ k \<le> 1" by linarith
  with Suc show ?case by (simp add: pow2.simps [of "2 * 2 ^ k"])
qed

lemma pow2_imp_power: "pow2 n \<Longrightarrow> \<exists>k. n = 2 ^ k"
proof (induction n rule: pow2.induct)
  case (1 n)
  show ?case
  proof (cases "n \<le> 1")
    case True
    with "1.prems" have "n = 2 ^ 0" by (simp add: pow2.simps [of n])
    then show ?thesis by blast
  next
    case False
    with "1.prems" have e: "even n" and p: "pow2 (n div 2)" by (simp_all add: pow2.simps [of n])
    from "1.IH" [OF False p] obtain k where "n div 2 = 2 ^ k" by blast
    with e have "n = 2 ^ Suc k" by auto
    then show ?thesis by blast
  qed
qed

text \<open>\<open>pow2\<close> holds of the powers of two, and of nothing else.\<close>

lemma pow2_iff: "pow2 n \<longleftrightarrow> (\<exists>k. n = 2 ^ k)"
  using pow2_power pow2_imp_power by blast



section \<open>The merge\<close>


lemma merge_base:
  "len < long_mul (MIN_MERGE_SIZE g) 2 \<Longrightarrow>
   merge k g n l r res start len m = Some (basicmerge k n l r res start len m)"
  by (subst merge.simps) simp

lemma merge_rec:
  "\<not> len < long_mul (MIN_MERGE_SIZE g) 2 \<Longrightarrow>
   merge k g n l r res start len m =
     merge k g n l r res start (long_div len 2) m \<bind>
     merge k g n l r res (long_add start (long_div len 2)) (long_div len 2)"
  by (subst merge.simps) simp


section \<open>The recursive sort\<close>

lemma multisort_base:
  "\<not> long_mul (MIN_SORT_SIZE g) 4 \<le> n \<Longrightarrow> multisort k g n d t m = Some (basicsort k n d m)"
  by (subst multisort.simps) simp








lemma basicsort_sorts:
  assumes bs: "basicsort_contract (basicsort k)" and n: "0 \<le> n"
  shows "rd (basicsort k n d m) d n = sort (rd m d n)"
    and "\<And>a. a < d \<or> d + n \<le> a \<Longrightarrow> basicsort k n d m a = m a"
proof -
  from bs n have c: "sorted (rd (basicsort k n d m) d n)"
    "mset (rd (basicsort k n d m) d n) = mset (rd m d n)"
    "\<forall>a. a < d \<or> d + n \<le> a \<longrightarrow> basicsort k n d m a = m a"
    unfolding basicsort_contract_def by blast+
  from c(2,1) show "rd (basicsort k n d m) d n = sort (rd m d n)"
    by (rule properties_for_sort [symmetric])
  fix a assume "a < d \<or> d + n \<le> a"
  with c(3) show "basicsort k n d m a = m a" by blast
qed




section \<open>The reference kernels meet the contracts\<close>

lemma basicsort_ref_contract: "basicsort_contract basicsort_ref"
  unfolding basicsort_contract_def
proof (intro allI impI conjI)
  fix n d :: int and m :: mem
  assume n: "0 \<le> n"
  have len: "int (length (sort (rd m d n))) = n" using n by simp
  have r: "rd (basicsort_ref n d m) d n = sort (rd m d n)"
    unfolding basicsort_ref_def using rd_wr [of m d "sort (rd m d n)"] len by simp
  show "sorted (rd (basicsort_ref n d m) d n)" by (simp add: r)
  show "mset (rd (basicsort_ref n d m) d n) = mset (rd m d n)" by (simp add: r)
  fix a assume "a < d \<or> d + n \<le> a"
  then show "basicsort_ref n d m a = m a"
    unfolding basicsort_ref_def using len by (intro wr_outside) simp
qed

lemma basicmerge_ref_contract: "basicmerge_contract basicmerge_ref"
  unfolding basicmerge_contract_def
proof (intro allI impI conjI)
  fix n l r res start len :: int and m :: mem
  assume a: "0 \<le> n \<and> 0 \<le> start \<and> 0 \<le> len \<and> start + len \<le> 2 * n \<and>
        sorted (rd m l n) \<and> sorted (rd m r n) \<and>
        disjoint res (2 * n) l n \<and> disjoint res (2 * n) r n"
  let ?X = "take (nat len) (drop (nat start) (stable_merge (\<lambda>x. x) (rd m l n) (rd m r n)))"
  have len: "int (length ?X) = len"
    using a by (simp add: length_stable_merge) linarith
  show "rd (basicmerge_ref n l r res start len m) (res + start) len = ?X"
    unfolding basicmerge_ref_def using rd_wr [of m "res + start" ?X] len by simp
  fix b assume "b < res + start \<or> res + start + len \<le> b"
  then show "basicmerge_ref n l r res start len m b = m b"
    unfolding basicmerge_ref_def using len by (intro wr_outside) simp
qed

lemma kernels_ref_contracts:
  "basicsort_contract (basicsort kernels_ref)" "basicmerge_contract (basicmerge kernels_ref)"
  by (simp_all add: kernels_ref_def basicsort_ref_contract basicmerge_ref_contract)

section \<open>The engine reads the two thresholds only\<close>

lemma merge_thresholds:
  assumes run: "merge k g n l r res start len m = Some y"
  shows "\<forall>g'::globals. MIN_MERGE_SIZE g' = MIN_MERGE_SIZE g \<longrightarrow>
    merge k g' n l r res start len m = Some y"
proof (rule merge.raw_induct [where P = "\<lambda>k g n l r res start len m y.
    \<forall>g'::globals. MIN_MERGE_SIZE g' = MIN_MERGE_SIZE g \<longrightarrow>
      merge k g' n l r res start len m = Some y", OF _ run])
  fix mrg k g n l r res start len m y
  assume IH: "\<And>k g n l r res start len m y. mrg k g n l r res start len m = Some y \<Longrightarrow>
      \<forall>g'::globals. MIN_MERGE_SIZE g' = MIN_MERGE_SIZE g \<longrightarrow>
        merge k g' n l r res start len m = Some y"
    and eq: "(if len < long_mul (MIN_MERGE_SIZE g) 2
        then Some (basicmerge k n l r res start len m)
        else mrg k g n l r res start (long_div len 2) m \<bind>
          mrg k g n l r res (long_add start (long_div len 2)) (long_div len 2)) = Some y"
  show "\<forall>g'::globals. MIN_MERGE_SIZE g' = MIN_MERGE_SIZE g \<longrightarrow>
      merge k g' n l r res start len m = Some y"
  proof (intro allI impI)
    fix g' :: globals assume g': "MIN_MERGE_SIZE g' = MIN_MERGE_SIZE g"
    show "merge k g' n l r res start len m = Some y"
    proof (cases "len < long_mul (MIN_MERGE_SIZE g) 2")
      case True
      with eq g' show ?thesis by (simp add: merge_base)
    next
      case False
      with eq obtain m1 where
        a: "mrg k g n l r res start (long_div len 2) m = Some m1"
        and b: "mrg k g n l r res (long_add start (long_div len 2)) (long_div len 2) m1 = Some y"
        by (auto simp: bind_eq_Some_conv)
      from IH [OF a] g' have a': "merge k g' n l r res start (long_div len 2) m = Some m1"
        by blast
      from IH [OF b] g' have b':
        "merge k g' n l r res (long_add start (long_div len 2)) (long_div len 2) m1 = Some y"
        by blast
      from False g' a' b' show ?thesis by (simp add: merge_rec)
    qed
  qed
qed

lemma merge_thresholds_eq:
  assumes "MIN_MERGE_SIZE g' = MIN_MERGE_SIZE g"
  shows "merge k g' n l r res start len m = merge k g n l r res start len m"
proof (cases "merge k g n l r res start len m")
  case (Some y)
  with merge_thresholds [OF Some] assms show ?thesis by simp
next
  case None
  show ?thesis
  proof (cases "merge k g' n l r res start len m")
    case (Some y)
    from merge_thresholds [OF Some] assms None show ?thesis by simp
  qed (simp add: None)
qed

lemma multisort_thresholds:
  assumes run: "multisort k g n d t m = Some y"
  shows "\<forall>g'::globals. MIN_SORT_SIZE g' = MIN_SORT_SIZE g \<and> MIN_MERGE_SIZE g' = MIN_MERGE_SIZE g \<longrightarrow>
    multisort k g' n d t m = Some y"
proof (rule multisort.raw_induct [where P = "\<lambda>k g n d t m y.
    \<forall>g'::globals. MIN_SORT_SIZE g' = MIN_SORT_SIZE g \<and> MIN_MERGE_SIZE g' = MIN_MERGE_SIZE g \<longrightarrow>
      multisort k g' n d t m = Some y", OF _ run])
  fix ms k g n d t m y
  assume IH: "\<And>k g n d t m y. ms k g n d t m = Some y \<Longrightarrow>
      \<forall>g'::globals. MIN_SORT_SIZE g' = MIN_SORT_SIZE g \<and> MIN_MERGE_SIZE g' = MIN_MERGE_SIZE g \<longrightarrow>
        multisort k g' n d t m = Some y"
    and eq: "(if long_mul (MIN_SORT_SIZE g) 4 \<le> n
        then ms k g (long_div n 4) d t m \<bind>
          (\<lambda>m1. ms k g (long_div n 4) (d + long_div n 4) (t + long_div n 4) m1 \<bind>
          (\<lambda>m2. ms k g (long_div n 4) (d + long_div n 2) (t + long_div n 2) m2 \<bind>
          (\<lambda>m3. ms k g (long_div n 4) (d + long_div (long_mul 3 n) 4)
                  (t + long_div (long_mul 3 n) 4) m3 \<bind>
          (\<lambda>m4. merge k g (long_div n 4) d (d + long_div n 4) t 0 (long_div n 2) m4 \<bind>
          (\<lambda>m5. merge k g (long_div n 4) (d + long_div n 2) (d + long_div (long_mul 3 n) 4)
                  (t + long_div n 2) 0 (long_div n 2) m5 \<bind>
                merge k g (long_div n 2) t (t + long_div n 2) d 0 n)))))
        else Some (basicsort k n d m)) = Some y"
  show "\<forall>g'::globals. MIN_SORT_SIZE g' = MIN_SORT_SIZE g \<and> MIN_MERGE_SIZE g' = MIN_MERGE_SIZE g \<longrightarrow>
      multisort k g' n d t m = Some y"
  proof (intro allI impI)
    fix g' :: globals
    assume g': "MIN_SORT_SIZE g' = MIN_SORT_SIZE g \<and> MIN_MERGE_SIZE g' = MIN_MERGE_SIZE g"
    then have mg: "\<And>n l r res start len m.
        merge k g' n l r res start len m = merge k g n l r res start len m"
      by (intro merge_thresholds_eq) simp
    show "multisort k g' n d t m = Some y"
    proof (cases "long_mul (MIN_SORT_SIZE g) 4 \<le> n")
      case False
      with eq g' show ?thesis by (simp add: multisort_base)
    next
      case True
      with eq obtain m1 m2 m3 m4 m5 m6 where
        s1: "ms k g (long_div n 4) d t m = Some m1" and
        s2: "ms k g (long_div n 4) (d + long_div n 4) (t + long_div n 4) m1 = Some m2" and
        s3: "ms k g (long_div n 4) (d + long_div n 2) (t + long_div n 2) m2 = Some m3" and
        s4: "ms k g (long_div n 4) (d + long_div (long_mul 3 n) 4)
           (t + long_div (long_mul 3 n) 4) m3 = Some m4" and
        e1: "merge k g (long_div n 4) d (d + long_div n 4) t 0 (long_div n 2) m4 = Some m5" and
        e2: "merge k g (long_div n 4) (d + long_div n 2) (d + long_div (long_mul 3 n) 4)
           (t + long_div n 2) 0 (long_div n 2) m5 = Some m6" and
        e3: "merge k g (long_div n 2) t (t + long_div n 2) d 0 n m6 = Some y"
        by (auto simp: bind_eq_Some_conv)
      have i: "long_mul (MIN_SORT_SIZE g') 4 \<le> n" using True g' by simp
      note r = IH [OF s1, rule_format, OF g'] IH [OF s2, rule_format, OF g']
        IH [OF s3, rule_format, OF g'] IH [OF s4, rule_format, OF g']
      show ?thesis
        by (subst multisort.simps) (simp add: i r e1 e2 e3 mg)
    qed
  qed
qed

lemma multisort_thresholds_eq:
  assumes "MIN_SORT_SIZE g' = MIN_SORT_SIZE g" and "MIN_MERGE_SIZE g' = MIN_MERGE_SIZE g"
  shows "multisort k g' n d t m = multisort k g n d t m"
proof (cases "multisort k g n d t m")
  case (Some y)
  with multisort_thresholds [OF Some] assms show ?thesis by simp
next
  case None
  show ?thesis
  proof (cases "multisort k g' n d t m")
    case (Some y)
    from multisort_thresholds [OF Some] assms None show ?thesis by simp
  qed (simp add: None)
qed

section \<open>The driver checks option names only\<close>

lemma atol_3: "atol ''3'' = 3"
  by (simp add: atol_def isspace_def isdigit_def clamp_long_def LONG_MAX_def)


section \<open>Functional correctness of the sort\<close>








section \<open>The claims\<close>









text \<open>
  C5 (terminal case). For \<open>0 \<le> n < 4 * MIN_SORT_SIZE\<close>, \<^verbatim>\<open>multisort(n, data, tmp)\<close> is
  the one call \<^verbatim>\<open>basicsort(n, data)\<close>, which is not given \<^verbatim>\<open>tmp\<close>: it returns with
  \<open>data[0..n)\<close> sorted in place, and every element of a \<^verbatim>\<open>tmp\<close> that does not overlap
  \<^verbatim>\<open>data\<close> is as it was.
\<close>

theorem multisort_base_case:
  assumes bs: "basicsort_contract (basicsort k)"
    and n: "0 \<le> n" "n < 4 * MIN_SORT_SIZE g"
    and r: "4 * MIN_SORT_SIZE g \<le> LONG_MAX"
    and dj: "disjoint data n tmp n"
  shows "multisort k g n data tmp m = Some (basicsort k n data m) \<and>
    rd (basicsort k n data m) data n = sort (rd m data n) \<and>
    (\<forall>a. tmp \<le> a \<and> a < tmp + n \<longrightarrow> basicsort k n data m a = m a)"
proof (intro conjI allI impI)
  have "long_mul (MIN_SORT_SIZE g) 4 = 4 * MIN_SORT_SIZE g"
    using n r by (simp add: long_mul_def LONG_MAX_def wrap64_id)
  with n show "multisort k g n data tmp m = Some (basicsort k n data m)"
    by (simp add: multisort_base)
  show "rd (basicsort k n data m) data n = sort (rd m data n)"
    by (rule basicsort_sorts(1) [OF bs n(1)])
  fix a assume "tmp \<le> a \<and> a < tmp + n"
  with dj have "a < data \<or> data + n \<le> a" by (auto simp: disjoint_def)
  then show "basicsort k n data m a = m a"
    by (rule basicsort_sorts(2) [OF bs n(1)])
qed

theorem multisort_base_case_witness:
  "multisort kernels_ref \<lparr>N = 4, MIN_SORT_SIZE = 4, MIN_MERGE_SIZE = 4, CUTOFF = 16\<rparr>
       4 0 4 (store 0 [4, 3, 2, 1, 7, 7, 7, 7]) =
     Some (basicsort kernels_ref 4 0 (store 0 [4, 3, 2, 1, 7, 7, 7, 7])) \<and>
   rd (basicsort kernels_ref 4 0 (store 0 [4, 3, 2, 1, 7, 7, 7, 7])) 0 4 = [1, 2, 3, 4] \<and>
   rd (basicsort kernels_ref 4 0 (store 0 [4, 3, 2, 1, 7, 7, 7, 7])) 4 4 = [7, 7, 7, 7]"
proof -
  let ?g = "\<lparr>N = 4, MIN_SORT_SIZE = 4, MIN_MERGE_SIZE = 4, CUTOFF = 16\<rparr>"
  let ?m = "store 0 [4, 3, 2, 1, 7, 7, 7, 7]"
  have n: "(0::int) \<le> 4" "4 < 4 * MIN_SORT_SIZE ?g" by simp_all
  have r: "4 * MIN_SORT_SIZE ?g \<le> LONG_MAX" by (simp add: LONG_MAX_def)
  have d: "disjoint 0 4 4 4" by (simp add: disjoint_def)
  from multisort_base_case [OF kernels_ref_contracts(1) n r d, of ?m]
  have run: "multisort kernels_ref ?g 4 0 4 ?m = Some (basicsort kernels_ref 4 0 ?m)"
    and srt: "rd (basicsort kernels_ref 4 0 ?m) 0 4 = sort (rd ?m 0 4)"
    and fr: "\<And>a. 4 \<le> a \<and> a < 4 + 4 \<Longrightarrow> basicsort kernels_ref 4 0 ?m a = ?m a"
    by blast+
  have "rd ?m 0 4 = [4, 3, 2, 1]" by (simp add: rd_def store_def wr_def upt_rec)
  with srt have s: "rd (basicsort kernels_ref 4 0 ?m) 0 4 = [1, 2, 3, 4]" by simp
  have "rd (basicsort kernels_ref 4 0 ?m) 4 4 = rd ?m 4 4"
    by (rule rd_cong) (simp add: fr)
  also have "\<dots> = [7, 7, 7, 7]" by (simp add: rd_def store_def wr_def upt_rec)
  finally show ?thesis using run s by simp
qed










text \<open>
  C10 (\<^verbatim>\<open>CUTOFF\<close> is not consulted). The driver stores the value of \<^verbatim>\<open>-c\<close> in
  \<^verbatim>\<open>CUTOFF\<close>, and neither \<^verbatim>\<open>multisort\<close> nor \<^verbatim>\<open>merge\<close> depends on it: two runs that
  differ in \<^verbatim>\<open>CUTOFF\<close> only end in the same store (or both do not return).
\<close>

theorem cutoff_not_consulted:
  "main True [prog, ''-c'', v] = Sorts (defaults\<lparr>CUTOFF := atoi v\<rparr>) \<and>
   multisort k (g\<lparr>CUTOFF := c\<rparr>) n data tmp m = multisort k g n data tmp m \<and>
   merge k (g\<lparr>CUTOFF := c\<rparr>) n left right result start len m =
     merge k g n left right result start len m"
proof (intro conjI)
  show "main True [prog, ''-c'', v] = Sorts (defaults\<lparr>CUTOFF := atoi v\<rparr>)"
    by (simp add: main_def)
  show "multisort k (g\<lparr>CUTOFF := c\<rparr>) n data tmp m = multisort k g n data tmp m"
    by (rule multisort_thresholds_eq) simp_all
  show "merge k (g\<lparr>CUTOFF := c\<rparr>) n left right result start len m =
     merge k g n left right result start len m"
    by (rule merge_thresholds_eq) simp
qed

theorem cutoff_not_consulted_witness:
  "main True [''multisort'', ''-c'', ''3''] =
     Sorts \<lparr>N = 33554432, MIN_SORT_SIZE = 1024, MIN_MERGE_SIZE = 1024, CUTOFF = 3\<rparr> \<and>
   multisort kernels_ref \<lparr>N = 8, MIN_SORT_SIZE = 1, MIN_MERGE_SIZE = 1, CUTOFF = 3\<rparr>
       8 0 8 (store 0 [5, 3, 8, 1, 9, 2, 7, 4]) =
   multisort kernels_ref \<lparr>N = 8, MIN_SORT_SIZE = 1, MIN_MERGE_SIZE = 1, CUTOFF = 16\<rparr>
       8 0 8 (store 0 [5, 3, 8, 1, 9, 2, 7, 4])"
proof -
  have a: "atoi ''3'' = 3" by (simp add: atoi_def wrap32_def atol_3)
  from cutoff_not_consulted [where prog = "''multisort''" and v = "''3''" and k = kernels_ref
      and g = "\<lparr>N = 8, MIN_SORT_SIZE = 1, MIN_MERGE_SIZE = 1, CUTOFF = 16\<rparr>"
      and c = 3 and n = 8 and data = 0 and tmp = 8
      and m = "store 0 [5, 3, 8, 1, 9, 2, 7, 4]"]
  show ?thesis by (simp add: a defaults_def)
qed

end
